theory Spec2Isabelle
  imports Main "HOL-Library.AList" "HOL-Library.Multiset"
begin

section \<open>Exceptions\<close>

text \<open>
  The exception classes of \<^verbatim>\<open>config.py\<close>, each carrying the message it is raised with.
  \<^verbatim>\<open>DuplicatePhaseException\<close> and \<^verbatim>\<open>InvalidPhaseException\<close> derive from
  \<^verbatim>\<open>PhaseException\<close>, \<^verbatim>\<open>InvalidJobTemplateException\<close> from \<^verbatim>\<open>JobException\<close>.
  \<^verbatim>\<open>NameError\<close> is Python's own exception for reading a name that no scope binds; it
  carries that name.
\<close>

datatype error =
    JobException string
  | InvalidJobTemplateException string
  | DuplicatePhaseException string
  | InvalidPhaseException string
  | NameError string

fun is_PhaseException :: "error \<Rightarrow> bool" where
  "is_PhaseException (DuplicatePhaseException _) = True"
| "is_PhaseException (InvalidPhaseException _) = True"
| "is_PhaseException _ = False"

fun is_JobException :: "error \<Rightarrow> bool" where
  "is_JobException (JobException _) = True"
| "is_JobException (InvalidJobTemplateException _) = True"
| "is_JobException _ = False"

section \<open>Job\<close>

text \<open>The attributes of \<^verbatim>\<open>class Job\<close>; \<^verbatim>\<open>_job_name\<close> is read through the property \<^verbatim>\<open>name\<close>.\<close>

record Job =
  job_name :: string
  phase :: string
  template :: string
  var_key :: "string option"
  host_selectors :: "string list"
  package_selectors :: "string list"

text \<open>
  \<^verbatim>\<open>Job.__init__\<close>: \<^verbatim>\<open>if not job_name: raise JobException('Job Name is Required')\<close>.
  For a \<^verbatim>\<open>str\<close> the test \<^verbatim>\<open>not job_name\<close> is true exactly for the empty string.
\<close>

definition Job_init :: "string \<Rightarrow> string \<Rightarrow> error + Job" where
  "Job_init job_name_arg phase_name =
     (if job_name_arg = [] then Inl (JobException ''Job Name is Required'')
      else Inr \<lparr> job_name = job_name_arg, phase = phase_name, template = [],
                 var_key = None, host_selectors = [], package_selectors = [] \<rparr>)"

text \<open>
  The specification's notion of a blank name: every character is white space
  (space, tab, line feed, vertical tab, form feed, carriage return). The empty
  string is blank as well.
\<close>

definition is_whitespace :: "char \<Rightarrow> bool" where
  "is_whitespace c = (c \<in> set [CHR '' '', CHR 0x09, CHR 0x0A, CHR 0x0B, CHR 0x0C, CHR 0x0D])"

definition is_blank :: "string \<Rightarrow> bool" where
  "is_blank s = list_all is_whitespace s"

section \<open>Pipeline\<close>

text \<open>
  \<^verbatim>\<open>_job_phase\<close> is a \<^verbatim>\<open>defaultdict(list)\<close>. A Python dict iterates its keys in the
  order in which they were first stored, so it is an association list here: a new
  key goes to the end, a stored key keeps its place. \<^verbatim>\<open>host_order_label\<close> is not
  assigned by \<^verbatim>\<open>__init__\<close>.
\<close>

record Pipeline =
  job_name_cache :: "string set"
  job_phase :: "(string \<times> Job list) list"
  pipeline_template :: string
  host_order_label :: "string option"
  phases :: "string list"

definition Pipeline_init :: Pipeline where
  "Pipeline_init = \<lparr> job_name_cache = {}, job_phase = [], pipeline_template = [],
                      host_order_label = None, phases = [] \<rparr>"

text \<open>
  The pipeline as \<^verbatim>\<open>load_pipeline_from_config\<close> has it before its first \<^verbatim>\<open>add_phase\<close>:
  \<^verbatim>\<open>Pipeline()\<close>, then \<^verbatim>\<open>template\<close> and \<^verbatim>\<open>host_order_label\<close> assigned. No method of the
  class reads or writes the two attributes, so a pipeline on which they are assigned
  later is the one on which they were assigned first.
\<close>

definition Pipeline_loaded :: "string \<Rightarrow> string option \<Rightarrow> Pipeline" where
  "Pipeline_loaded t l = Pipeline_init\<lparr> pipeline_template := t, host_order_label := l \<rparr>"

text \<open>
  \<^verbatim>\<open>d[k]\<close> on a \<^verbatim>\<open>defaultdict(list)\<close>: the stored list, or, for a missing key, a new
  empty list that is stored under \<^verbatim>\<open>k\<close> before it is returned. The second component
  is the dictionary afterwards.
\<close>

definition defaultdict_getitem ::
  "string \<Rightarrow> (string \<times> Job list) list \<Rightarrow> Job list \<times> (string \<times> Job list) list" where
  "defaultdict_getitem k d =
     (case map_of d k of
        Some v \<Rightarrow> (v, d)
      | None \<Rightarrow> ([], d @ [(k, [])]))"

text \<open>\<^verbatim>\<open>d[k].append(job)\<close>: the list found (or created) under \<^verbatim>\<open>k\<close> grows in place.\<close>

definition defaultdict_append ::
  "string \<Rightarrow> Job \<Rightarrow> (string \<times> Job list) list \<Rightarrow> (string \<times> Job list) list" where
  "defaultdict_append k job d =
     (case defaultdict_getitem k d of (v, d1) \<Rightarrow> AList.update k (v @ [job]) d1)"

text \<open>
  Every method returns its outcome together with the pipeline object as the call
  leaves it, so that what a raising call has done to the object is part of the model.
\<close>

definition add_job :: "Job \<Rightarrow> Pipeline \<Rightarrow> (error + unit) \<times> Pipeline" where
  "add_job job self =
     (if job_name job \<in> job_name_cache self
      then (Inl (JobException (''Duplicate Job Name: '' @ job_name job)), self)
      else if phase job \<notin> set (phases self)
      then (Inl (InvalidPhaseException (''Invalid Phase Name: '' @ phase job)), self)
      else (Inr (),
            self\<lparr> job_name_cache := insert (job_name job) (job_name_cache self),
                  job_phase := defaultdict_append (phase job) job (job_phase self) \<rparr>))"

text \<open>
  \<^verbatim>\<open>get_jobs_by_phase\<close>, iterated to its end: \<^verbatim>\<open>yield from self._job_phase[phase_name]\<close>.
  The subscript is the defaultdict's, so the pipeline may gain a key.
\<close>

definition get_jobs_by_phase :: "string \<Rightarrow> Pipeline \<Rightarrow> Job list \<times> Pipeline" where
  "get_jobs_by_phase phase_name self =
     (case defaultdict_getitem phase_name (job_phase self) of
        (v, d) \<Rightarrow> (v, self\<lparr> job_phase := d \<rparr>))"

text \<open>\<^verbatim>\<open>get_jobs\<close>: the items of \<^verbatim>\<open>_job_phase\<close> in the dict's order, each list in its order.\<close>

definition get_jobs :: "Pipeline \<Rightarrow> Job list" where
  "get_jobs self = concat (map snd (job_phase self))"

definition get_phases :: "Pipeline \<Rightarrow> string list" where
  "get_phases self = phases self"

text \<open>
  The names that the body of \<^verbatim>\<open>add_phase\<close> can read: its parameters and the names bound
  at module level (the imports, the classes and the two functions). Python's builtins
  hold no name \<^verbatim>\<open>phase\<close>.
\<close>

definition module_names :: "string list" where
  "module_names =
     [''defaultdict'', ''product'', ''Dict'', ''List'', ''Union'', ''Tuple'', ''Iterable'',
      ''os'', ''Job'', ''Pipeline'', ''Stage'', ''load_pipeline_from_config'',
      ''with_full_path'', ''PhaseException'', ''DuplicatePhaseException'',
      ''InvalidPhaseException'', ''JobException'', ''InvalidJobTemplateException'']"

definition add_phase_names :: "string list" where
  "add_phase_names = [''self'', ''phase_name''] @ module_names"

definition load_name :: "string list \<Rightarrow> string \<Rightarrow> error + unit" where
  "load_name scope n = (if n \<in> set scope then Inr () else Inl (NameError n))"

text \<open>
  \<^verbatim>\<open>add_phase\<close>. For a name that is already declared the code runs
  \<^verbatim>\<open>raise DuplicatePhaseException(f'Duplicate Phase Name: {phase.name}')\<close>: the message is
  evaluated first, and it reads the name \<^verbatim>\<open>phase\<close>, not the parameter \<^verbatim>\<open>phase_name\<close>.
  Only with that name bound would the exception be constructed and raised, its message
  completed from the binding; \<open>add_phase_names\<close> does not bind it.
\<close>

definition add_phase :: "string \<Rightarrow> Pipeline \<Rightarrow> (error + unit) \<times> Pipeline" where
  "add_phase phase_name self =
     (if phase_name \<in> set (phases self)
      then (case load_name add_phase_names ''phase'' of
              Inl e \<Rightarrow> (Inl e, self)
            | Inr _ \<Rightarrow> (Inl (DuplicatePhaseException ''Duplicate Phase Name: ''), self))
      else (Inr (), self\<lparr> phases := phases self @ [phase_name] \<rparr>))"

subsection \<open>Using a pipeline by calls\<close>

text \<open>
  The calls that change a pipeline object: \<^verbatim>\<open>add_phase\<close> and \<^verbatim>\<open>add_job\<close>, as the loader
  makes them, and an iteration of \<^verbatim>\<open>get_jobs_by_phase\<close>, which may store a key. A run
  of calls ends at the first exception.
\<close>

datatype call = AddPhase string | AddJob Job | JobsByPhase string

fun apply_call :: "call \<Rightarrow> Pipeline \<Rightarrow> (error + unit) \<times> Pipeline" where
  "apply_call (AddPhase n) self = add_phase n self"
| "apply_call (AddJob j) self = add_job j self"
| "apply_call (JobsByPhase n) self = (Inr (), snd (get_jobs_by_phase n self))"

fun build :: "call list \<Rightarrow> Pipeline \<Rightarrow> error + Pipeline" where
  "build [] self = Inr self"
| "build (c # cs) self =
     (case apply_call c self of
        (Inl e, _) \<Rightarrow> Inl e
      | (Inr _, self') \<Rightarrow> build cs self')"

text \<open>What a run of calls that all succeed has declared, added and looked up.\<close>

fun declared_phases :: "call list \<Rightarrow> string list" where
  "declared_phases [] = []"
| "declared_phases (AddPhase n # cs) = n # declared_phases cs"
| "declared_phases (_ # cs) = declared_phases cs"

fun added_jobs :: "call list \<Rightarrow> Job list" where
  "added_jobs [] = []"
| "added_jobs (AddJob j # cs) = j # added_jobs cs"
| "added_jobs (_ # cs) = added_jobs cs"

fun touched_phases :: "call list \<Rightarrow> string list" where
  "touched_phases [] = []"
| "touched_phases (AddJob j # cs) = phase j # touched_phases cs"
| "touched_phases (JobsByPhase n # cs) = n # touched_phases cs"
| "touched_phases (_ # cs) = touched_phases cs"


text \<open>The jobs of a list that belong to one phase, in the list's order.\<close>

definition jobs_of_phase :: "Job list \<Rightarrow> string \<Rightarrow> Job list" where
  "jobs_of_phase js n = filter (\<lambda>j. phase j = n) js"

text \<open>The distinct elements of a list, each at the place of its first occurrence.\<close>

definition first_seen :: "'a list \<Rightarrow> 'a list" where
  "first_seen xs = rev (remdups (rev xs))"



text \<open>
  The dictionary that holds, under each of the given keys in turn, the jobs of \<open>js\<close> of
  that phase.
\<close>

definition keyed :: "Job list \<Rightarrow> string list \<Rightarrow> (string \<times> Job list) list" where
  "keyed js ks = map (\<lambda>k. (k, jobs_of_phase js k)) ks"

text \<open>
  What a run of successful calls leaves behind: \<open>ps\<close> the phases declared, \<open>js\<close> the jobs
  added and \<open>ts\<close> the phase names under which the dictionary was subscripted, each in
  call order.
\<close>

definition tracks :: "string list \<Rightarrow> Job list \<Rightarrow> string list \<Rightarrow> Pipeline \<Rightarrow> bool" where
  "tracks ps js ts p =
     (phases p = ps \<and> distinct ps \<and>
      job_phase p = keyed js (first_seen ts) \<and>
      job_name_cache p = job_name ` set js \<and> distinct (map job_name js) \<and>
      phase ` set js \<subseteq> set ts \<and> phase ` set js \<subseteq> set ps)"

section \<open>Stage\<close>

text \<open>
  A \<^verbatim>\<open>Stage\<close> refers to its pipeline; the record holds the pipeline's state, and a method
  that touches the pipeline returns the stage with that state updated. Ordering groups
  are values of one linearly ordered type \<open>'g\<close>.
\<close>

record 'g Stage =
  pipeline :: Pipeline
  order_groups :: "'g list"

text \<open>
  Python's \<^verbatim>\<open>sorted(xs, reverse=r)\<close> on values of a linear order, where equal values
  are the same value and the stability of the sort cannot be seen.
\<close>

definition sorted_builtin :: "'g::linorder list \<Rightarrow> bool \<Rightarrow> 'g list" where
  "sorted_builtin xs reverse = (if reverse then rev (sort xs) else sort xs)"

definition Stage_init :: "Pipeline \<Rightarrow> 'g::linorder list \<Rightarrow> bool \<Rightarrow> 'g Stage" where
  "Stage_init p groups reverse = \<lparr> pipeline = p, order_groups = sorted_builtin groups reverse \<rparr>"

text \<open>
  \<^verbatim>\<open>_get_stages\<close>: \<^verbatim>\<open>itertools.product\<close> pairs every ordering group with every phase, the
  phases running fastest; \<open>fmt\<close> is what the f-string makes of an ordering group
  (\<^verbatim>\<open>format(stage, '')\<close>).
\<close>

definition get_stages_raw :: "('g \<Rightarrow> string) \<Rightarrow> 'g Stage \<Rightarrow> ('g \<times> string \<times> string) list" where
  "get_stages_raw fmt self =
     map (\<lambda>(stage, phase_name). (stage, phase_name, fmt stage @ ''-'' @ phase_name))
         (List.product (order_groups self) (get_phases (pipeline self)))"

definition get_stages :: "('g \<Rightarrow> string) \<Rightarrow> 'g Stage \<Rightarrow> string list" where
  "get_stages fmt self = map (\<lambda>(_, _, stage). stage) (get_stages_raw fmt self)"

text \<open>The two loops of \<^verbatim>\<open>get_stage_jobs\<close>, threading the pipeline through the lookups.\<close>

fun stage_jobs_loop ::
  "('g \<times> string \<times> string) list \<Rightarrow> Pipeline \<Rightarrow> ('g \<times> string \<times> string \<times> Job) list \<times> Pipeline" where
  "stage_jobs_loop [] p = ([], p)"
| "stage_jobs_loop ((stage, phase_name, stage_name) # rest) p =
     (case get_jobs_by_phase phase_name p of
        (jobs, p1) \<Rightarrow>
          (case stage_jobs_loop rest p1 of
             (out, p2) \<Rightarrow> (map (\<lambda>job. (stage, phase_name, stage_name, job)) jobs @ out, p2)))"

definition get_stage_jobs ::
  "('g \<Rightarrow> string) \<Rightarrow> 'g Stage \<Rightarrow> ('g \<times> string \<times> string \<times> Job) list \<times> 'g Stage" where
  "get_stage_jobs fmt self =
     (case stage_jobs_loop (get_stages_raw fmt self) (pipeline self) of
        (out, p) \<Rightarrow> (out, self\<lparr> pipeline := p \<rparr>))"

text \<open>Python's \<^verbatim>\<open>str\<close> of an \<^verbatim>\<open>int\<close>: decimal digits, with a minus sign below zero.\<close>

fun str_nat :: "nat \<Rightarrow> string" where
  "str_nat n = (if n < 10 then [char_of (48 + n)] else str_nat (n div 10) @ [char_of (48 + n mod 10)])"

declare str_nat.simps [simp del]

definition str_int :: "int \<Rightarrow> string" where
  "str_int i = (if i < 0 then CHR ''-'' # str_nat (nat (- i)) else str_nat (nat i))"

section \<open>Sample data\<close>

text \<open>
  The scenario of the specification: phases \<^verbatim>\<open>partition\<close> and \<^verbatim>\<open>changebroker\<close>, job
  \<^verbatim>\<open>a\<close> in the first and job \<^verbatim>\<open>b\<close> in the second. \<open>scenario_calls\<close> adds the jobs in
  the order of their phases, \<open>crossed_calls\<close> adds \<^verbatim>\<open>b\<close> before \<^verbatim>\<open>a\<close>.
\<close>

definition job_a :: Job where
  "job_a = \<lparr> job_name = ''a'', phase = ''partition'', template = [], var_key = None,
               host_selectors = [], package_selectors = [] \<rparr>"

definition job_b :: Job where
  "job_b = \<lparr> job_name = ''b'', phase = ''changebroker'', template = [], var_key = None,
               host_selectors = [], package_selectors = [] \<rparr>"

definition scenario_calls :: "call list" where
  "scenario_calls = [AddPhase ''partition'', AddPhase ''changebroker'', AddJob job_a, AddJob job_b]"

definition scenario_pipeline :: Pipeline where
  "scenario_pipeline =
     \<lparr> job_name_cache = {''a'', ''b''},
       job_phase = [(''partition'', [job_a]), (''changebroker'', [job_b])],
       pipeline_template = [], host_order_label = None,
       phases = [''partition'', ''changebroker''] \<rparr>"


definition crossed_pipeline :: Pipeline where
  "crossed_pipeline =
     \<lparr> job_name_cache = {''a'', ''b''},
       job_phase = [(''changebroker'', [job_b]), (''partition'', [job_a])],
       pipeline_template = [], host_order_label = None,
       phases = [''partition'', ''changebroker''] \<rparr>"

text \<open>The scenario as the loader builds it, with a template path and a label.\<close>

definition loaded_pipeline :: Pipeline where
  "loaded_pipeline =
     \<lparr> job_name_cache = {''a'', ''b''},
       job_phase = [(''partition'', [job_a]), (''changebroker'', [job_b])],
       pipeline_template = ''/srv/pipeline.yml'', host_order_label = Some ''wave'',
       phases = [''partition'', ''changebroker''] \<rparr>"

text \<open>
  A third job for \<^verbatim>\<open>partition\<close>, a job for a phase that is not declared, and a job
  that has both the name of \<^verbatim>\<open>a\<close> and a phase that is not declared.
\<close>

definition job_c :: Job where
  "job_c = \<lparr> job_name = ''c'', phase = ''partition'', template = [], var_key = None,
               host_selectors = [], package_selectors = [] \<rparr>"

definition job_lost :: Job where
  "job_lost = \<lparr> job_name = ''d'', phase = ''nowhere'', template = [], var_key = None,
                  host_selectors = [], package_selectors = [] \<rparr>"

definition job_a_lost :: Job where
  "job_a_lost = \<lparr> job_name = ''a'', phase = ''nowhere'', template = [], var_key = None,
                    host_selectors = [], package_selectors = [] \<rparr>"

text \<open>The scenario before job \<^verbatim>\<open>b\<close> is added: \<^verbatim>\<open>changebroker\<close> has no job.\<close>

definition sparse_calls :: "call list" where
  "sparse_calls = [AddPhase ''partition'', AddPhase ''changebroker'', AddJob job_a]"

definition sparse_pipeline :: Pipeline where
  "sparse_pipeline =
     \<lparr> job_name_cache = {''a''},
       job_phase = [(''partition'', [job_a])],
       pipeline_template = [], host_order_label = None,
       phases = [''partition'', ''changebroker''] \<rparr>"

text \<open>
  From the loader's start again: a lookup of an undeclared phase between two jobs of
  \<^verbatim>\<open>partition\<close>, and \<^verbatim>\<open>changebroker\<close> left without a job.
\<close>

definition probed_calls :: "call list" where
  "probed_calls = [AddPhase ''partition'', AddPhase ''changebroker'', AddJob job_a,
                   JobsByPhase ''nowhere'', AddJob job_c]"

definition probed_pipeline :: Pipeline where
  "probed_pipeline =
     \<lparr> job_name_cache = {''a'', ''c''},
       job_phase = [(''partition'', [job_a, job_c]), (''nowhere'', [])],
       pipeline_template = ''/srv/pipeline.yml'', host_order_label = Some ''wave'',
       phases = [''partition'', ''changebroker''] \<rparr>"

section \<open>Properties of the pipeline\<close>

lemma add_phase_declared:
  "n \<in> set (phases p) \<Longrightarrow> add_phase n p = (Inl (NameError ''phase''), p)"
  by (simp add: add_phase_def load_name_def add_phase_names_def module_names_def)

lemma add_phase_fresh:
  "n \<notin> set (phases p) \<Longrightarrow> add_phase n p = (Inr (), p\<lparr> phases := phases p @ [n] \<rparr>)"
  by (simp add: add_phase_def)

lemma map_of_keyed:
  "map_of (map (\<lambda>k. (k, f k)) ks) k = (if k \<in> set ks then Some (f k) else None)"
  by (induction ks) auto

lemma update_keyed:
  "distinct ks \<Longrightarrow> k \<in> set ks \<Longrightarrow>
   AList.update k v (map (\<lambda>k. (k, f k)) ks) = map (\<lambda>k'. (k', if k' = k then v else f k')) ks"
  by (induction ks) auto

lemma update_snoc_fresh:
  "k \<notin> fst ` set d \<Longrightarrow> AList.update k v (d @ [(k, w)]) = d @ [(k, v)]"
  by (induction d) auto

lemma first_seen_snoc:
  "first_seen (xs @ [x]) = (if x \<in> set xs then first_seen xs else first_seen xs @ [x])"
  by (simp add: first_seen_def)

lemma set_first_seen [simp]: "set (first_seen xs) = set xs"
  by (simp add: first_seen_def)

lemma distinct_first_seen [simp]: "distinct (first_seen xs)"
  by (simp add: first_seen_def)

lemma jobs_of_phase_snoc:
  "jobs_of_phase (js @ [j]) n = jobs_of_phase js n @ (if phase j = n then [j] else [])"
  by (simp add: jobs_of_phase_def)

lemma jobs_of_phase_empty:
  "n \<notin> phase ` set js \<Longrightarrow> jobs_of_phase js n = []"
  by (auto simp: jobs_of_phase_def filter_empty_conv)

lemma getitem_keyed:
  "defaultdict_getitem k (keyed js ks) =
     (if k \<in> set ks then (jobs_of_phase js k, keyed js ks) else ([], keyed js ks @ [(k, [])]))"
  by (simp add: defaultdict_getitem_def keyed_def map_of_keyed)

lemma getitem_keyed_touch:
  assumes "phase ` set js \<subseteq> set ts"
  shows "snd (defaultdict_getitem k (keyed js (first_seen ts))) = keyed js (first_seen (ts @ [k]))"
proof (cases "k \<in> set ts")
  case True
  then show ?thesis by (simp add: getitem_keyed first_seen_snoc)
next
  case False
  then have "jobs_of_phase js k = []"
    using assms by (intro jobs_of_phase_empty) auto
  then show ?thesis
    using False by (simp add: getitem_keyed first_seen_snoc) (simp add: keyed_def)
qed

lemma append_keyed:
  assumes "phase ` set js \<subseteq> set ts"
  shows "defaultdict_append (phase j) j (keyed js (first_seen ts)) =
         keyed (js @ [j]) (first_seen (ts @ [phase j]))"
proof (cases "phase j \<in> set ts")
  case True
  then show ?thesis
    by (simp add: defaultdict_append_def getitem_keyed first_seen_snoc)
       (simp add: keyed_def update_keyed jobs_of_phase_snoc)
next
  case False
  have fresh: "phase j \<notin> fst ` set (keyed js (first_seen ts))"
    using False by (auto simp: keyed_def)
  have none: "jobs_of_phase js (phase j) = []"
    using False assms by (intro jobs_of_phase_empty) auto
  have others: "keyed (js @ [j]) (first_seen ts) = keyed js (first_seen ts)"
    using False by (auto simp: keyed_def jobs_of_phase_snoc)
  show ?thesis
    using False fresh none others
    by (simp add: defaultdict_append_def getitem_keyed first_seen_snoc update_snoc_fresh)
       (simp add: keyed_def jobs_of_phase_snoc)
qed

lemma add_job_ok:
  "job_name j \<notin> job_name_cache p \<Longrightarrow> phase j \<in> set (phases p) \<Longrightarrow>
   add_job j p = (Inr (), p\<lparr> job_name_cache := insert (job_name j) (job_name_cache p),
                              job_phase := defaultdict_append (phase j) j (job_phase p) \<rparr>)"
  by (simp add: add_job_def)

lemma add_job_raises_unchanged: "isl (fst (add_job j p)) \<Longrightarrow> snd (add_job j p) = p"
  by (simp add: add_job_def split: if_splits)

lemma add_phase_raises_unchanged: "isl (fst (add_phase n p)) \<Longrightarrow> snd (add_phase n p) = p"
  by (simp add: add_phase_def split: if_splits sum.splits)

lemma tracks_init: "tracks [] [] [] Pipeline_init"
  by (simp add: tracks_def Pipeline_init_def keyed_def first_seen_def)

lemma tracks_step:
  assumes "tracks ps js ts p" and "apply_call c p = (Inr u, p')"
  shows "tracks (ps @ declared_phases [c]) (js @ added_jobs [c]) (ts @ touched_phases [c]) p'"
proof (cases c)
  case (AddPhase n)
  with assms show ?thesis
    by (auto simp: tracks_def add_phase_def split: if_splits sum.splits)
next
  case (AddJob j)
  with assms have fresh: "job_name j \<notin> job_name_cache p" and ok: "phase j \<in> set (phases p)"
    by (auto simp: add_job_def split: if_splits)
  with assms AddJob have p': "p' = p\<lparr> job_name_cache := insert (job_name j) (job_name_cache p),
                              job_phase := defaultdict_append (phase j) j (job_phase p) \<rparr>"
    by (simp add: add_job_ok)
  from assms(1) have sub: "phase ` set js \<subseteq> set ts" by (simp add: tracks_def)
  show ?thesis
    using assms(1) fresh ok AddJob
    by (auto simp: tracks_def p' append_keyed [OF sub])
next
  case (JobsByPhase n)
  from assms(1) have sub: "phase ` set js \<subseteq> set ts" by (simp add: tracks_def)
  from assms JobsByPhase have p': "p' = snd (get_jobs_by_phase n p)" by auto
  have jp: "job_phase (snd (get_jobs_by_phase n p)) = snd (defaultdict_getitem n (job_phase p))"
    by (simp add: get_jobs_by_phase_def split: prod.splits)
  have rest: "phases (snd (get_jobs_by_phase n p)) = phases p"
    "job_name_cache (snd (get_jobs_by_phase n p)) = job_name_cache p"
    by (simp_all add: get_jobs_by_phase_def split: prod.splits)
  show ?thesis
    using assms(1) JobsByPhase
    by (auto simp: tracks_def p' jp rest getitem_keyed_touch [OF sub])
qed

lemma declared_phases_append: "declared_phases (c # cs) = declared_phases [c] @ declared_phases cs"
  by (cases c) auto
lemma added_jobs_append: "added_jobs (c # cs) = added_jobs [c] @ added_jobs cs"
  by (cases c) auto
lemma touched_phases_append: "touched_phases (c # cs) = touched_phases [c] @ touched_phases cs"
  by (cases c) auto

lemma tracks_build:
  "tracks ps js ts p \<Longrightarrow> build cs p = Inr p' \<Longrightarrow>
   tracks (ps @ declared_phases cs) (js @ added_jobs cs) (ts @ touched_phases cs) p'"
proof (induction cs arbitrary: ps js ts p)
  case Nil
  then show ?case by simp
next
  case (Cons c cs)
  from Cons.prems(2) obtain u p1 where step: "apply_call c p = (Inr u, p1)" and rest: "build cs p1 = Inr p'"
    by (auto split: prod.splits sum.splits)
  from tracks_step [OF Cons.prems(1) step]
  have "tracks (ps @ declared_phases [c]) (js @ added_jobs [c]) (ts @ touched_phases [c]) p1" .
  from Cons.IH [OF this rest] show ?case
    by (simp add: declared_phases_append [of c cs] added_jobs_append [of c cs] touched_phases_append [of c cs])
qed


lemma tracks_loaded: "tracks [] [] [] (Pipeline_loaded t l)"
  using tracks_init by (simp add: tracks_def Pipeline_loaded_def)

lemma build_tracks:
  "build cs (Pipeline_loaded t l) = Inr p \<Longrightarrow>
   tracks (declared_phases cs) (added_jobs cs) (touched_phases cs) p"
  using tracks_build [OF tracks_loaded] by fastforce

lemma apply_call_keeps_labels:
  "pipeline_template (snd (apply_call c p)) = pipeline_template p \<and>
   host_order_label (snd (apply_call c p)) = host_order_label p"
  by (cases c)
     (simp_all add: add_phase_def add_job_def get_jobs_by_phase_def
        split: sum.splits prod.splits)

lemma build_keeps_labels:
  "build cs p0 = Inr p \<Longrightarrow>
   pipeline_template p = pipeline_template p0 \<and> host_order_label p = host_order_label p0"
proof (induction cs arbitrary: p0)
  case Nil
  then show ?case by simp
next
  case (Cons c cs)
  from Cons.prems obtain u p1 where step: "apply_call c p0 = (Inr u, p1)" and rest: "build cs p1 = Inr p"
    by (auto split: prod.splits sum.splits)
  from apply_call_keeps_labels [of c p0] step
  have "pipeline_template p1 = pipeline_template p0 \<and> host_order_label p1 = host_order_label p0"
    by simp
  with Cons.IH [OF rest] show ?case by simp
qed


lemma jobs_under_built:
  assumes "tracks ps js ts p"
  shows "fst (get_jobs_by_phase n p) = jobs_of_phase js n"
proof -
  from assms have jp: "job_phase p = keyed js (first_seen ts)" and sub: "phase ` set js \<subseteq> set ts"
    by (simp_all add: tracks_def)
  show ?thesis
  proof (cases "n \<in> set ts")
    case True
    then show ?thesis by (simp add: get_jobs_by_phase_def jp getitem_keyed)
  next
    case False
    then have "jobs_of_phase js n = []" using sub by (intro jobs_of_phase_empty) auto
    with False show ?thesis by (simp add: get_jobs_by_phase_def jp getitem_keyed)
  qed
qed

lemma mset_concat_by_key:
  "distinct ks \<Longrightarrow>
   mset (concat (map (\<lambda>k. filter (\<lambda>j. f j = k) js) ks)) = mset (filter (\<lambda>j. f j \<in> set ks) js)"
proof (induction ks)
  case Nil
  then show ?case by simp
next
  case (Cons k ks)
  have "mset (filter (\<lambda>j. f j = k) js) + mset (filter (\<lambda>j. f j \<in> set ks) js) =
        mset (filter (\<lambda>j. f j = k \<or> f j \<in> set ks) js)"
    using Cons.prems by (induction js) auto
  with Cons show ?case by simp
qed

lemma get_jobs_built:
  assumes "tracks ps js ts p"
  shows "get_jobs p = concat (map (jobs_of_phase js) (first_seen ts))"
  using assms by (simp add: tracks_def get_jobs_def keyed_def comp_def)

lemma mset_get_jobs_built:
  assumes "tracks ps js ts p"
  shows "mset (get_jobs p) = mset js"
proof -
  from assms have sub: "phase ` set js \<subseteq> set ts" by (simp add: tracks_def)
  have "mset (get_jobs p) = mset (filter (\<lambda>j. phase j \<in> set (first_seen ts)) js)"
    unfolding get_jobs_built [OF assms] jobs_of_phase_def [abs_def]
    by (rule mset_concat_by_key) simp
  also have "filter (\<lambda>j. phase j \<in> set (first_seen ts)) js = js"
    using sub by (auto simp: filter_id_conv)
  finally show ?thesis .
qed

lemma cache_built:
  assumes "tracks ps js ts p"
  shows "job_name_cache p = job_name ` set (get_jobs p)"
proof -
  have "set (get_jobs p) = set js"
    using mset_get_jobs_built [OF assms] by (rule mset_eq_setD)
  with assms show ?thesis by (simp add: tracks_def)
qed



subsection \<open>The sample pipelines\<close>

lemma job_a_init: "Job_init ''a'' ''partition'' = Inr job_a"
  by (simp add: Job_init_def job_a_def)

lemma job_b_init: "Job_init ''b'' ''changebroker'' = Inr job_b"
  by (simp add: Job_init_def job_b_def)

lemma job_a_sel [simp]: "job_name job_a = ''a''" "phase job_a = ''partition''"
  by (simp_all add: job_a_def)

lemma job_b_sel [simp]: "job_name job_b = ''b''" "phase job_b = ''changebroker''"
  by (simp_all add: job_b_def)

lemma job_a_neq_b [simp]: "job_a \<noteq> job_b" "job_b \<noteq> job_a"
  by (simp_all add: job_a_def job_b_def)

lemma build_scenario: "build scenario_calls Pipeline_init = Inr scenario_pipeline"
  by (simp add: scenario_calls_def scenario_pipeline_def Pipeline_init_def add_phase_def
      add_job_def defaultdict_append_def defaultdict_getitem_def insert_commute)


lemma build_loaded:
  "build scenario_calls (Pipeline_loaded ''/srv/pipeline.yml'' (Some ''wave'')) = Inr loaded_pipeline"
  by (simp add: scenario_calls_def loaded_pipeline_def Pipeline_loaded_def Pipeline_init_def
      add_phase_def add_job_def defaultdict_append_def defaultdict_getitem_def insert_commute)

lemma loaded_sel [simp]:
  "phases loaded_pipeline = [''partition'', ''changebroker'']"
  "job_phase loaded_pipeline = [(''partition'', [job_a]), (''changebroker'', [job_b])]"
  "job_name_cache loaded_pipeline = {''a'', ''b''}"
  by (simp_all add: loaded_pipeline_def)

lemma scenario_sel [simp]:
  "phases scenario_pipeline = [''partition'', ''changebroker'']"
  "job_phase scenario_pipeline = [(''partition'', [job_a]), (''changebroker'', [job_b])]"
  "job_name_cache scenario_pipeline = {''a'', ''b''}"
  by (simp_all add: scenario_pipeline_def)

lemma crossed_sel [simp]:
  "phases crossed_pipeline = [''partition'', ''changebroker'']"
  "job_phase crossed_pipeline = [(''changebroker'', [job_b]), (''partition'', [job_a])]"
  "job_name_cache crossed_pipeline = {''a'', ''b''}"
  by (simp_all add: crossed_pipeline_def)


lemma job_c_sel [simp]: "job_name job_c = ''c''" "phase job_c = ''partition''"
  by (simp_all add: job_c_def)

lemma job_lost_sel [simp]: "job_name job_lost = ''d''" "phase job_lost = ''nowhere''"
  by (simp_all add: job_lost_def)

lemma job_a_lost_sel [simp]: "job_name job_a_lost = ''a''" "phase job_a_lost = ''nowhere''"
  by (simp_all add: job_a_lost_def)

lemma build_sparse: "build sparse_calls Pipeline_init = Inr sparse_pipeline"
  by (simp add: sparse_calls_def sparse_pipeline_def Pipeline_init_def add_phase_def
      add_job_def defaultdict_append_def defaultdict_getitem_def)

lemma sparse_sel [simp]:
  "phases sparse_pipeline = [''partition'', ''changebroker'']"
  "job_phase sparse_pipeline = [(''partition'', [job_a])]"
  "job_name_cache sparse_pipeline = {''a''}"
  by (simp_all add: sparse_pipeline_def)

lemma build_probed:
  "build probed_calls (Pipeline_loaded ''/srv/pipeline.yml'' (Some ''wave'')) = Inr probed_pipeline"
  by (simp add: probed_calls_def probed_pipeline_def Pipeline_loaded_def Pipeline_init_def
      add_phase_def add_job_def get_jobs_by_phase_def defaultdict_append_def
      defaultdict_getitem_def insert_commute)

lemma added_jobs_probed: "added_jobs probed_calls = [job_a, job_c]"
  by (simp add: probed_calls_def)

lemma get_jobs_loaded [simp]: "get_jobs loaded_pipeline = [job_a, job_b]"
  by (simp add: get_jobs_def)

lemma get_phases_loaded [simp]: "get_phases loaded_pipeline = [''partition'', ''changebroker'']"
  by (simp add: get_phases_def)

lemma jobs_by_phase_loaded [simp]:
  "fst (get_jobs_by_phase ''partition'' loaded_pipeline) = [job_a]"
  "fst (get_jobs_by_phase ''changebroker'' loaded_pipeline) = [job_b]"
  "fst (get_jobs_by_phase ''nowhere'' loaded_pipeline) = []"
  by (simp_all add: get_jobs_by_phase_def defaultdict_getitem_def)

lemma get_jobs_scenario [simp]: "get_jobs scenario_pipeline = [job_a, job_b]"
  by (simp add: get_jobs_def)

lemma get_phases_scenario [simp]: "get_phases scenario_pipeline = [''partition'', ''changebroker'']"
  by (simp add: get_phases_def)

lemma jobs_by_phase_scenario [simp]:
  "fst (get_jobs_by_phase ''partition'' scenario_pipeline) = [job_a]"
  "fst (get_jobs_by_phase ''changebroker'' scenario_pipeline) = [job_b]"
  "fst (get_jobs_by_phase ''nowhere'' scenario_pipeline) = []"
  by (simp_all add: get_jobs_by_phase_def defaultdict_getitem_def)

section \<open>Properties of the stage expansion\<close>

lemma lookup_after_lookup:
  "fst (get_jobs_by_phase n (snd (get_jobs_by_phase m p))) = fst (get_jobs_by_phase n p)"
  by (auto simp: get_jobs_by_phase_def defaultdict_getitem_def map_of_append
      split: option.splits if_splits)

lemma phases_after_lookup [simp]: "phases (snd (get_jobs_by_phase m p)) = phases p"
  by (simp add: get_jobs_by_phase_def split: prod.splits)

lemma loop_lookup:
  "fst (get_jobs_by_phase n (snd (stage_jobs_loop ts p))) = fst (get_jobs_by_phase n p)"
proof (induction ts arbitrary: p)
  case Nil
  then show ?case by simp
next
  case (Cons t ts)
  obtain g ph nm where t: "t = (g, ph, nm)" by (cases t)
  have "snd (stage_jobs_loop (t # ts) p) = snd (stage_jobs_loop ts (snd (get_jobs_by_phase ph p)))"
    by (simp add: t split: prod.splits)
  then show ?case by (simp add: Cons.IH lookup_after_lookup)
qed

lemma loop_phases: "phases (snd (stage_jobs_loop ts p)) = phases p"
proof (induction ts arbitrary: p)
  case Nil
  then show ?case by simp
next
  case (Cons t ts)
  obtain g ph nm where t: "t = (g, ph, nm)" by (cases t)
  have "snd (stage_jobs_loop (t # ts) p) = snd (stage_jobs_loop ts (snd (get_jobs_by_phase ph p)))"
    by (simp add: t split: prod.splits)
  then show ?case by (simp add: Cons.IH)
qed

lemma loop_tuples:
  "fst (stage_jobs_loop ts p) =
     concat (map (\<lambda>(g, ph, nm). map (\<lambda>job. (g, ph, nm, job)) (fst (get_jobs_by_phase ph p))) ts)"
proof (induction ts arbitrary: p)
  case Nil
  then show ?case by simp
next
  case (Cons t ts)
  obtain g ph nm where t: "t = (g, ph, nm)" by (cases t)
  have "fst (stage_jobs_loop (t # ts) p) =
        map (\<lambda>job. (g, ph, nm, job)) (fst (get_jobs_by_phase ph p)) @
        fst (stage_jobs_loop ts (snd (get_jobs_by_phase ph p)))"
    by (simp add: t split: prod.splits)
  then show ?case by (simp add: Cons.IH lookup_after_lookup t)
qed

lemma map_product:
  "map f (List.product xs ys) = concat (map (\<lambda>x. map (\<lambda>y. f (x, y)) ys) xs)"
  by (induction xs) simp_all

lemma concat_map_product:
  "concat (map F (List.product xs ys)) = concat (map (\<lambda>x. concat (map (\<lambda>y. F (x, y)) ys)) xs)"
  by (induction xs) (simp_all add: comp_def)

lemma get_stages_nested:
  "get_stages fmt st =
     concat (map (\<lambda>g. map (\<lambda>ph. fmt g @ ''-'' @ ph) (get_phases (pipeline st))) (order_groups st))"
proof -
  have "get_stages fmt st =
        map (\<lambda>(g, ph). fmt g @ ''-'' @ ph) (List.product (order_groups st) (get_phases (pipeline st)))"
    by (simp add: get_stages_def get_stages_raw_def comp_def case_prod_unfold)
  then show ?thesis by (simp add: map_product)
qed

lemma get_stage_jobs_nested:
  "fst (get_stage_jobs fmt st) =
     concat (map (\<lambda>g. concat (map (\<lambda>ph. map (\<lambda>job. (g, ph, fmt g @ ''-'' @ ph, job))
                                          (fst (get_jobs_by_phase ph (pipeline st))))
                                 (get_phases (pipeline st))))
                 (order_groups st))"
proof -
  have "fst (get_stage_jobs fmt st) = fst (stage_jobs_loop (get_stages_raw fmt st) (pipeline st))"
    by (simp add: get_stage_jobs_def split: prod.splits)
  also have "\<dots> =
      concat (map (\<lambda>(g, ph). map (\<lambda>job. (g, ph, fmt g @ ''-'' @ ph, job))
                                  (fst (get_jobs_by_phase ph (pipeline st))))
                  (List.product (order_groups st) (get_phases (pipeline st))))"
    by (simp add: loop_tuples get_stages_raw_def comp_def case_prod_unfold)
  finally show ?thesis by (simp add: concat_map_product)
qed

lemma length_nested:
  "length (concat (map (\<lambda>g. concat (map (\<lambda>ph. map (h g ph) (J ph)) ps)) gs)) =
   sum_list (map (\<lambda>ph. length (J ph) * length gs) ps)"
proof -
  have inner: "length (concat (map (\<lambda>ph. map (h g ph) (J ph)) ps)) = sum_list (map (\<lambda>ph. length (J ph)) ps)"
    for g by (simp add: length_concat comp_def)
  have "length (concat (map (\<lambda>g. concat (map (\<lambda>ph. map (h g ph) (J ph)) ps)) gs)) =
        length gs * sum_list (map (\<lambda>ph. length (J ph)) ps)"
    by (simp add: length_concat comp_def inner sum_list_triv)
  also have "\<dots> = sum_list (map (\<lambda>ph. length (J ph) * length gs) ps)"
    by (induction ps) (simp_all add: algebra_simps)
  finally show ?thesis .
qed

lemma stage_after_jobs:
  "order_groups (snd (get_stage_jobs fmt st)) = order_groups st"
  "get_phases (pipeline (snd (get_stage_jobs fmt st))) = get_phases (pipeline st)"
  "fst (get_jobs_by_phase n (pipeline (snd (get_stage_jobs fmt st)))) =
   fst (get_jobs_by_phase n (pipeline st))"
  by (simp_all add: get_stage_jobs_def get_phases_def loop_phases loop_lookup split: prod.splits)
     (metis loop_phases loop_lookup snd_conv)+

subsection \<open>The sample stages\<close>

lemma str_int_digits: "str_int 0 = ''0''" "str_int 1 = ''1''"
  by code_simp+

lemma sorted_builtin_sample:
  "sorted_builtin [1, 0 :: int] False = [0, 1]" "sorted_builtin [1, 0 :: int] True = [1, 0]"
  by (simp_all add: sorted_builtin_def)

lemma jobs_by_phase_sparse [simp]:
  "fst (get_jobs_by_phase ''partition'' sparse_pipeline) = [job_a]"
  "fst (get_jobs_by_phase ''changebroker'' sparse_pipeline) = []"
  by (simp_all add: get_jobs_by_phase_def defaultdict_getitem_def)

lemma get_phases_sparse [simp]: "get_phases sparse_pipeline = [''partition'', ''changebroker'']"
  by (simp add: get_phases_def)

lemma pipeline_Stage_init [simp]:
  "pipeline (Stage_init p gs reverse) = p"
  "order_groups (Stage_init p gs reverse) = sorted_builtin gs reverse"
  by (simp_all add: Stage_init_def)

lemma get_stage_jobs_stores_keys:
  "job_phase (pipeline (snd (get_stage_jobs str_int (Stage_init sparse_pipeline [1, 0] False)))) =
     [(''partition'', [job_a]), (''changebroker'', [])]"
  by (simp add: get_stage_jobs_def get_stages_raw_def sorted_builtin_sample str_int_digits
      get_jobs_by_phase_def defaultdict_getitem_def get_phases_def)

lemma get_stage_jobs_sparse:
  "fst (get_stage_jobs str_int (Stage_init sparse_pipeline [1, 0] False)) =
     [(0, ''partition'', ''0-partition'', job_a), (1, ''partition'', ''1-partition'', job_a)]"
  by (simp add: get_stage_jobs_nested sorted_builtin_sample str_int_digits)

section \<open>The claims\<close>

subsection \<open>C1: a duplicate phase name\<close>

text \<open>
  C1 says that \<^verbatim>\<open>add_phase\<close> with a name that is already declared raises
  \<^verbatim>\<open>DuplicatePhaseException\<close> and nothing else. Declaring \<^verbatim>\<open>partition\<close> twice on a new
  pipeline, or once more on the scenario's pipeline, raises \<^verbatim>\<open>NameError\<close> instead, which
  is no \<^verbatim>\<open>PhaseException\<close>: the message of the intended exception reads the unbound
  name \<^verbatim>\<open>phase\<close>.
\<close>

theorem add_phase_duplicate_raises_NameError:
  "build [AddPhase ''partition'', AddPhase ''partition''] Pipeline_init = Inl (NameError ''phase'')
   \<and> fst (add_phase ''partition'' scenario_pipeline) = Inl (NameError ''phase'')
   \<and> \<not> is_PhaseException (NameError ''phase'')"
  by (simp add: add_phase_fresh add_phase_declared Pipeline_init_def)

subsection \<open>C2: the order of \<^verbatim>\<open>get_jobs\<close>\<close>




subsection \<open>C3: the name of a job\<close>

text \<open>
  C3 as stated (a blank name is refused) fails: a name of one space is blank, and
  the constructor accepts it.
\<close>

theorem Job_init_blank_name_counterexample:
  "\<not> (isl (Job_init '' '' ''partition'') \<longleftrightarrow> '' '' = [] \<or> is_blank '' '')"
  by (simp add: is_blank_def is_whitespace_def Job_init_def)

text \<open>
  C3, amended: constructing a Job fails, with the error for a missing name, if and
  only if the name is the empty string; every other name, a blank one too, gives the
  job of that name and phase. So no constructed Job has an empty name.
\<close>

theorem Job_init_empty_name:
  "(isl (Job_init n ph) \<longleftrightarrow> n = []) \<and>
   (n = [] \<longrightarrow> Job_init n ph = Inl (JobException ''Job Name is Required'')) \<and>
   (n \<noteq> [] \<longrightarrow> Job_init n ph =
      Inr \<lparr> job_name = n, phase = ph, template = [], var_key = None,
            host_selectors = [], package_selectors = [] \<rparr>) \<and>
   (Job_init n ph = Inr j \<longrightarrow> job_name j \<noteq> [] \<and> job_name j = n \<and> phase j = ph)"
  by (auto simp: Job_init_def)

theorem Job_init_empty_name_witness:
  "Job_init [] ''partition'' = Inl (JobException ''Job Name is Required'') \<and>
   Job_init ''  '' ''partition'' =
      Inr \<lparr> job_name = ''  '', phase = ''partition'', template = [], var_key = None,
            host_selectors = [], package_selectors = [] \<rparr> \<and>
   job_name \<lparr> job_name = ''  '', phase = ''partition'', template = [], var_key = None,
            host_selectors = [], package_selectors = [] \<rparr> \<noteq> []"
proof -
  let ?j = "\<lparr> job_name = ''  '', phase = ''partition'', template = [], var_key = None,
            host_selectors = [], package_selectors = [] \<rparr>"
  have nonempty: "''  '' \<noteq> []" by simp
  from Job_init_empty_name [of "[]" "''partition''" ?j]
  have a: "Job_init [] ''partition'' = Inl (JobException ''Job Name is Required'')" by blast
  from Job_init_empty_name [of "''  ''" "''partition''" ?j] nonempty
  have b: "Job_init ''  '' ''partition'' = Inr ?j" by blast
  from Job_init_empty_name [of "''  ''" "''partition''" ?j] b
  have c: "job_name ?j \<noteq> []" by blast
  from a b c show ?thesis by blast
qed

subsection \<open>C4: the stage names\<close>

text \<open>
  C4: for a pipeline with M declared phases and a list of N ordering groups,
  \<^verbatim>\<open>get_stages\<close> on the Stage built from them yields the names \<open>fmt g @ ''-'' @ ph\<close>,
  the ordering groups in sorted order in the outer loop and the phases in declaration
  order in the inner loop, N times M names in all. The ordering groups of the Stage
  are the given ones rearranged, ascending by default and descending under
  \<^verbatim>\<open>reverse\<close>. An empty list of ordering groups yields no name.
\<close>

theorem get_stages_product:
  "get_stages fmt (Stage_init p gs reverse) =
     concat (map (\<lambda>g. map (\<lambda>ph. fmt g @ ''-'' @ ph) (get_phases p)) (sorted_builtin gs reverse)) \<and>
   length (get_stages fmt (Stage_init p gs reverse)) = length gs * length (get_phases p) \<and>
   sorted (sorted_builtin gs False) \<and>
   sorted (rev (sorted_builtin gs True)) \<and>
   mset (sorted_builtin gs reverse) = mset gs \<and>
   get_stages fmt (Stage_init p [] reverse) = []"
proof -
  have len: "length (sorted_builtin gs reverse) = length gs"
    by (simp add: sorted_builtin_def)
  have "length (get_stages fmt (Stage_init p gs reverse)) = length gs * length (get_phases p)"
    by (simp add: get_stages_def get_stages_raw_def len)
  then show ?thesis
    by (simp add: get_stages_nested) (simp add: sorted_builtin_def)
qed

theorem get_stages_product_witness:
  "get_stages str_int (Stage_init scenario_pipeline [1, 0] False) =
     [''0-partition'', ''0-changebroker'', ''1-partition'', ''1-changebroker''] \<and>
   get_stages str_int (Stage_init scenario_pipeline [1, 0] True) =
     [''1-partition'', ''1-changebroker'', ''0-partition'', ''0-changebroker''] \<and>
   length (get_stages str_int (Stage_init scenario_pipeline [1, 0] False)) = 2 * 2"
  using get_stages_product [of str_int scenario_pipeline "[1, 0]" False]
        get_stages_product [of str_int scenario_pipeline "[1, 0]" True]
  by (simp add: sorted_builtin_sample str_int_digits)

subsection \<open>C5: the stage jobs\<close>

text \<open>
  C5: \<^verbatim>\<open>get_stage_jobs\<close> yields, for the ordering groups in sorted order, the phases in
  declaration order and the jobs that \<^verbatim>\<open>get_jobs_by_phase\<close> yields for the phase (the
  pipeline's insertion order, by C8), the tuple of the ordering group, the phase, the
  stage name and the job. The tuples follow the sequence of stages whose names are
  what \<^verbatim>\<open>get_stages\<close> yields. Their number is the sum, over the declared phases, of
  the number of jobs of the phase times N, and a phase without jobs has no tuple.
\<close>

theorem get_stage_jobs_tuples:
  "fst (get_stage_jobs fmt (Stage_init p gs reverse)) =
     concat (map (\<lambda>g. concat (map (\<lambda>ph. map (\<lambda>job. (g, ph, fmt g @ ''-'' @ ph, job))
                                          (fst (get_jobs_by_phase ph p)))
                                 (get_phases p)))
                 (sorted_builtin gs reverse)) \<and>
   length (fst (get_stage_jobs fmt (Stage_init p gs reverse))) =
     sum_list (map (\<lambda>ph. length (fst (get_jobs_by_phase ph p)) * length gs) (get_phases p)) \<and>
   fst (get_stage_jobs fmt (Stage_init p gs reverse)) =
     concat (map (\<lambda>(g, ph, nm). map (\<lambda>job. (g, ph, nm, job)) (fst (get_jobs_by_phase ph p)))
                 (get_stages_raw fmt (Stage_init p gs reverse))) \<and>
   map (\<lambda>(g, ph, nm). nm) (get_stages_raw fmt (Stage_init p gs reverse)) =
     get_stages fmt (Stage_init p gs reverse) \<and>
   (fst (get_jobs_by_phase ph p) = [] \<longrightarrow>
      filter (\<lambda>(g, ph', nm, job). ph' = ph) (fst (get_stage_jobs fmt (Stage_init p gs reverse))) = [])"
proof -
  have walk: "fst (get_stage_jobs fmt (Stage_init p gs reverse)) =
     concat (map (\<lambda>(g, ph, nm). map (\<lambda>job. (g, ph, nm, job)) (fst (get_jobs_by_phase ph p)))
                 (get_stages_raw fmt (Stage_init p gs reverse)))"
  proof -
    have "fst (get_stage_jobs fmt (Stage_init p gs reverse)) =
          fst (stage_jobs_loop (get_stages_raw fmt (Stage_init p gs reverse)) p)"
      by (simp add: get_stage_jobs_def split: prod.splits)
    then show ?thesis by (simp add: loop_tuples)
  qed
  have names: "map (\<lambda>(g, ph, nm). nm) (get_stages_raw fmt (Stage_init p gs reverse)) =
     get_stages fmt (Stage_init p gs reverse)"
    by (simp add: get_stages_def)
  have len: "length (sorted_builtin gs reverse) = length gs"
    by (simp add: sorted_builtin_def)
  have nested: "fst (get_stage_jobs fmt (Stage_init p gs reverse)) =
     concat (map (\<lambda>g. concat (map (\<lambda>ph. map (\<lambda>job. (g, ph, fmt g @ ''-'' @ ph, job))
                                          (fst (get_jobs_by_phase ph p)))
                                 (get_phases p)))
                 (sorted_builtin gs reverse))"
    by (simp add: get_stage_jobs_nested)
  have count: "length (fst (get_stage_jobs fmt (Stage_init p gs reverse))) =
     sum_list (map (\<lambda>ph. length (fst (get_jobs_by_phase ph p)) * length gs) (get_phases p))"
    unfolding nested
    using length_nested [of "\<lambda>g ph job. (g, ph, fmt g @ ''-'' @ ph, job)"
        "\<lambda>ph. fst (get_jobs_by_phase ph p)" "get_phases p" "sorted_builtin gs reverse"]
    by (simp add: len)
  have none: "filter (\<lambda>(g, ph', nm, job). ph' = ph) (fst (get_stage_jobs fmt (Stage_init p gs reverse))) = []"
    if "fst (get_jobs_by_phase ph p) = []"
    unfolding nested using that by (auto simp: filter_empty_conv)
  from nested count walk names none show ?thesis by blast
qed

theorem get_stage_jobs_tuples_witness:
  "build sparse_calls Pipeline_init = Inr sparse_pipeline \<and>
   fst (get_stage_jobs str_int (Stage_init sparse_pipeline [1, 0] False)) =
     [(0, ''partition'', ''0-partition'', job_a), (1, ''partition'', ''1-partition'', job_a)] \<and>
   length (fst (get_stage_jobs str_int (Stage_init sparse_pipeline [1, 0] False))) = 1 * 2 + 0 * 2 \<and>
   fst (get_jobs_by_phase ''changebroker'' sparse_pipeline) = [] \<and>
   filter (\<lambda>(g, ph', nm, job). ph' = ''changebroker'')
     (fst (get_stage_jobs str_int (Stage_init sparse_pipeline [1, 0] False))) = []"
proof -
  have h: "fst (get_jobs_by_phase ''changebroker'' sparse_pipeline) = []" by simp
  from get_stage_jobs_tuples [of str_int sparse_pipeline "[1, 0]" False "''changebroker''"] h
  show ?thesis
    by (simp add: sorted_builtin_sample str_int_digits build_sparse)
qed

subsection \<open>C6: the outcomes of \<^verbatim>\<open>add_job\<close>\<close>

text \<open>
  C6: on every pipeline that successful calls have made of a new one, whatever its
  template and label, \<^verbatim>\<open>add_job\<close> raises the duplicate-name
  error when some job of the pipeline, in whatever phase, has the job's name; failing
  that, it raises the invalid-phase error when the job's phase is not declared;
  otherwise it succeeds, the name is recorded, the job is the new last job of its
  phase, and the other phases and the declared phases are as before. A raising call
  leaves the pipeline as it was. (The two errors are read in the order in which the
  code tests them; C10 is the case where both tests would fail.)
\<close>

theorem add_job_outcomes:
  assumes "build cs (Pipeline_loaded t l) = Inr p"
  shows "(job_name j \<in> job_name ` set (get_jobs p) \<longrightarrow>
            add_job j p = (Inl (JobException (''Duplicate Job Name: '' @ job_name j)), p)) \<and>
         (job_name j \<notin> job_name ` set (get_jobs p) \<and> phase j \<notin> set (get_phases p) \<longrightarrow>
            add_job j p = (Inl (InvalidPhaseException (''Invalid Phase Name: '' @ phase j)), p)) \<and>
         (job_name j \<notin> job_name ` set (get_jobs p) \<and> phase j \<in> set (get_phases p) \<longrightarrow>
            fst (add_job j p) = Inr () \<and>
            job_name_cache (snd (add_job j p)) = insert (job_name j) (job_name_cache p) \<and>
            fst (get_jobs_by_phase (phase j) (snd (add_job j p))) =
              fst (get_jobs_by_phase (phase j) p) @ [j] \<and>
            (n \<noteq> phase j \<longrightarrow>
               fst (get_jobs_by_phase n (snd (add_job j p))) = fst (get_jobs_by_phase n p)) \<and>
            get_phases (snd (add_job j p)) = get_phases p)"
proof -
  note t = build_tracks [OF assms]
  have cache: "job_name_cache p = job_name ` set (get_jobs p)" by (rule cache_built [OF t])
  have dup: "job_name j \<in> job_name ` set (get_jobs p) \<Longrightarrow>
      add_job j p = (Inl (JobException (''Duplicate Job Name: '' @ job_name j)), p)"
    using cache by (simp add: add_job_def)
  have inv: "job_name j \<notin> job_name ` set (get_jobs p) \<Longrightarrow> phase j \<notin> set (get_phases p) \<Longrightarrow>
      add_job j p = (Inl (InvalidPhaseException (''Invalid Phase Name: '' @ phase j)), p)"
    using cache by (simp add: add_job_def get_phases_def)
  have ok: "fst (add_job j p) = Inr () \<and>
            job_name_cache (snd (add_job j p)) = insert (job_name j) (job_name_cache p) \<and>
            fst (get_jobs_by_phase (phase j) (snd (add_job j p))) =
              fst (get_jobs_by_phase (phase j) p) @ [j] \<and>
            (n \<noteq> phase j \<longrightarrow>
               fst (get_jobs_by_phase n (snd (add_job j p))) = fst (get_jobs_by_phase n p)) \<and>
            get_phases (snd (add_job j p)) = get_phases p"
    if fresh: "job_name j \<notin> job_name ` set (get_jobs p)" and declared: "phase j \<in> set (get_phases p)"
  proof -
    obtain p' where step: "apply_call (AddJob j) p = (Inr (), p')"
      using fresh declared cache by (simp add: add_job_def get_phases_def)
    from tracks_step [OF t step]
    have t': "tracks (declared_phases cs) (added_jobs cs @ [j]) (touched_phases cs @ [phase j]) p'"
      by simp
    from step have p': "add_job j p = (Inr (), p')" by simp
    have "job_name_cache p' = insert (job_name j) (job_name_cache p)"
      using p' fresh declared cache by (auto simp: add_job_def get_phases_def)
    moreover have "phases p' = phases p"
      using t t' by (simp add: tracks_def)
    ultimately show ?thesis
      by (simp add: p' jobs_under_built [OF t] jobs_under_built [OF t'] jobs_of_phase_snoc
          get_phases_def)
  qed
  from dup inv ok show ?thesis by blast
qed

theorem add_job_outcomes_witness:
  "build scenario_calls (Pipeline_loaded ''/srv/pipeline.yml'' (Some ''wave'')) = Inr loaded_pipeline \<and>
   add_job job_a loaded_pipeline =
     (Inl (JobException ''Duplicate Job Name: a''), loaded_pipeline) \<and>
   add_job job_lost loaded_pipeline =
     (Inl (InvalidPhaseException ''Invalid Phase Name: nowhere''), loaded_pipeline) \<and>
   fst (add_job job_c loaded_pipeline) = Inr () \<and>
   job_name_cache (snd (add_job job_c loaded_pipeline)) = {''c'', ''a'', ''b''} \<and>
   fst (get_jobs_by_phase ''partition'' (snd (add_job job_c loaded_pipeline))) = [job_a, job_c] \<and>
   fst (get_jobs_by_phase ''changebroker'' (snd (add_job job_c loaded_pipeline))) = [job_b]"
proof -
  from add_job_outcomes [OF build_loaded, of job_a]
  have dup: "add_job job_a loaded_pipeline =
     (Inl (JobException ''Duplicate Job Name: a''), loaded_pipeline)"
    by simp
  from add_job_outcomes [OF build_loaded, of job_lost]
  have inv: "add_job job_lost loaded_pipeline =
     (Inl (InvalidPhaseException ''Invalid Phase Name: nowhere''), loaded_pipeline)"
    by simp
  from add_job_outcomes [OF build_loaded, of job_c "''changebroker''"]
  have ok: "fst (add_job job_c loaded_pipeline) = Inr ()"
    "job_name_cache (snd (add_job job_c loaded_pipeline)) = {''c'', ''a'', ''b''}"
    "fst (get_jobs_by_phase ''partition'' (snd (add_job job_c loaded_pipeline))) = [job_a, job_c]"
    "fst (get_jobs_by_phase ''changebroker'' (snd (add_job job_c loaded_pipeline))) = [job_b]"
    by simp_all
  from build_loaded dup inv ok show ?thesis by simp
qed

subsection \<open>C7: a failed call changes nothing\<close>

text \<open>
  C7: whenever \<^verbatim>\<open>add_phase\<close> or \<^verbatim>\<open>add_job\<close> raises, whatever the exception, the
  pipeline object is the one before the call, and so \<^verbatim>\<open>get_phases\<close>, \<^verbatim>\<open>get_jobs\<close> and
  \<^verbatim>\<open>get_jobs_by_phase\<close> of every phase name yield what they yielded before.
\<close>

theorem failed_call_leaves_pipeline:
  "(isl (fst (add_phase n p)) \<longrightarrow>
      snd (add_phase n p) = p \<and>
      get_phases (snd (add_phase n p)) = get_phases p \<and>
      get_jobs (snd (add_phase n p)) = get_jobs p \<and>
      fst (get_jobs_by_phase m (snd (add_phase n p))) = fst (get_jobs_by_phase m p)) \<and>
   (isl (fst (add_job j p)) \<longrightarrow>
      snd (add_job j p) = p \<and>
      get_phases (snd (add_job j p)) = get_phases p \<and>
      get_jobs (snd (add_job j p)) = get_jobs p \<and>
      fst (get_jobs_by_phase m (snd (add_job j p))) = fst (get_jobs_by_phase m p))"
  using add_phase_raises_unchanged [of n p] add_job_raises_unchanged [of j p] by simp

theorem failed_call_leaves_pipeline_witness:
  "isl (fst (add_phase ''partition'' scenario_pipeline)) \<and>
   isl (fst (add_job job_a scenario_pipeline)) \<and>
   snd (add_phase ''partition'' scenario_pipeline) = scenario_pipeline \<and>
   snd (add_job job_a scenario_pipeline) = scenario_pipeline \<and>
   get_jobs (snd (add_job job_a scenario_pipeline)) = [job_a, job_b] \<and>
   fst (get_jobs_by_phase ''partition'' (snd (add_job job_a scenario_pipeline))) = [job_a]"
proof -
  have h1: "isl (fst (add_phase ''partition'' scenario_pipeline))"
    by (simp add: add_phase_declared)
  have h2: "isl (fst (add_job job_a scenario_pipeline))"
    by (simp add: add_job_def)
  from failed_call_leaves_pipeline [of "''partition''" scenario_pipeline "''partition''" job_a] h1 h2
  show ?thesis by simp
qed

subsection \<open>C8: the jobs of one phase\<close>

text \<open>
  C8: on every pipeline that successful calls (lookups among them) have made of a
  new one, whatever its template and label,
  \<^verbatim>\<open>get_jobs_by_phase\<close> yields the jobs added with that phase, in the order of their
  addition; it yields the empty sequence when no job was added with that phase and
  when the phase was never declared. The model's \<^verbatim>\<open>get_jobs_by_phase\<close> has no error
  outcome: the defaultdict's subscript cannot raise \<^verbatim>\<open>KeyError\<close>.
\<close>

theorem get_jobs_by_phase_insertion_order:
  assumes "build cs (Pipeline_loaded t l) = Inr p"
  shows "fst (get_jobs_by_phase n p) = jobs_of_phase (added_jobs cs) n \<and>
         (jobs_of_phase (added_jobs cs) n = [] \<longrightarrow> fst (get_jobs_by_phase n p) = []) \<and>
         (n \<notin> set (get_phases p) \<longrightarrow> fst (get_jobs_by_phase n p) = [])"
proof -
  note t = build_tracks [OF assms]
  have a: "fst (get_jobs_by_phase n p) = jobs_of_phase (added_jobs cs) n"
    by (rule jobs_under_built [OF t])
  have "jobs_of_phase (added_jobs cs) n = []" if "n \<notin> set (get_phases p)"
    using t that by (intro jobs_of_phase_empty) (auto simp: tracks_def get_phases_def)
  with a show ?thesis by simp
qed

theorem get_jobs_by_phase_insertion_order_witness:
  "build probed_calls (Pipeline_loaded ''/srv/pipeline.yml'' (Some ''wave'')) = Inr probed_pipeline \<and>
   fst (get_jobs_by_phase ''partition'' probed_pipeline) = [job_a, job_c] \<and>
   fst (get_jobs_by_phase ''changebroker'' probed_pipeline) = [] \<and>
   fst (get_jobs_by_phase ''nowhere'' probed_pipeline) = [] \<and>
   fst (get_jobs_by_phase ''changebroker'' loaded_pipeline) = [job_b]"
proof -
  from get_jobs_by_phase_insertion_order [OF build_probed, of "''partition''"]
  have r1: "fst (get_jobs_by_phase ''partition'' probed_pipeline) = [job_a, job_c]"
    by (simp add: added_jobs_probed jobs_of_phase_def)
  from get_jobs_by_phase_insertion_order [OF build_probed, of "''changebroker''"]
  have r2: "fst (get_jobs_by_phase ''changebroker'' probed_pipeline) = []"
    by (simp add: added_jobs_probed jobs_of_phase_def)
  from get_jobs_by_phase_insertion_order [OF build_probed, of "''nowhere''"]
  have r3: "fst (get_jobs_by_phase ''nowhere'' probed_pipeline) = []"
    by (simp add: added_jobs_probed jobs_of_phase_def)
  from get_jobs_by_phase_insertion_order [OF build_loaded, of "''changebroker''"]
  have r4: "fst (get_jobs_by_phase ''changebroker'' loaded_pipeline) = [job_b]"
    by (simp add: scenario_calls_def jobs_of_phase_def)
  from build_probed r1 r2 r3 r4 show ?thesis by simp
qed

subsection \<open>C9: calling the generators again\<close>

text \<open>
  C9: after \<^verbatim>\<open>get_stage_jobs\<close> has run to its end, which may have stored keys in the
  pipeline's dictionary, \<^verbatim>\<open>get_stages\<close> yields what it yielded before and a second
  \<^verbatim>\<open>get_stage_jobs\<close> yields what the first one yielded. (\<^verbatim>\<open>get_stages\<close> itself reads
  the stage and the phase list only, so two calls in a row see the same object.)
\<close>

theorem stage_generators_restartable:
  "get_stages fmt (snd (get_stage_jobs fmt st)) = get_stages fmt st \<and>
   fst (get_stage_jobs fmt (snd (get_stage_jobs fmt st))) = fst (get_stage_jobs fmt st)"
  by (simp add: get_stages_nested get_stage_jobs_nested stage_after_jobs)

theorem stage_generators_restartable_witness:
  "build sparse_calls Pipeline_init = Inr sparse_pipeline \<and>
   job_phase sparse_pipeline = [(''partition'', [job_a])] \<and>
   job_phase (pipeline (snd (get_stage_jobs str_int (Stage_init sparse_pipeline [1, 0] False)))) =
     [(''partition'', [job_a]), (''changebroker'', [])] \<and>
   fst (get_stage_jobs str_int (snd (get_stage_jobs str_int (Stage_init sparse_pipeline [1, 0] False)))) =
     [(0, ''partition'', ''0-partition'', job_a), (1, ''partition'', ''1-partition'', job_a)] \<and>
   get_stages str_int (snd (get_stage_jobs str_int (Stage_init sparse_pipeline [1, 0] False))) =
     get_stages str_int (Stage_init sparse_pipeline [1, 0] False)"
  using stage_generators_restartable [of str_int "Stage_init sparse_pipeline [1, 0] False"]
  by (simp add: get_stage_jobs_stores_keys get_stage_jobs_sparse build_sparse)

subsection \<open>C10: both checks of \<^verbatim>\<open>add_job\<close> would fail\<close>

text \<open>
  C10: on every pipeline that successful calls have made of a new one, whatever its
  template and label, when the job's name is that of a job of the pipeline and its
  phase is not declared, \<^verbatim>\<open>add_job\<close> raises the duplicate-name error, not the invalid-phase
  error.
\<close>

theorem add_job_duplicate_name_first:
  assumes "build cs (Pipeline_loaded t l) = Inr p"
    and "job_name j \<in> job_name ` set (get_jobs p)"
    and "phase j \<notin> set (get_phases p)"
  shows "add_job j p = (Inl (JobException (''Duplicate Job Name: '' @ job_name j)), p)"
  using assms cache_built [OF build_tracks [OF assms(1)]]
  by (simp add: add_job_def)

theorem add_job_duplicate_name_first_witness:
  "build scenario_calls (Pipeline_loaded ''/srv/pipeline.yml'' (Some ''wave'')) = Inr loaded_pipeline \<and>
   job_name job_a_lost \<in> job_name ` set (get_jobs loaded_pipeline) \<and>
   phase job_a_lost \<notin> set (get_phases loaded_pipeline) \<and>
   add_job job_a_lost loaded_pipeline =
     (Inl (JobException ''Duplicate Job Name: a''), loaded_pipeline)"
proof -
  have h1: "job_name job_a_lost \<in> job_name ` set (get_jobs loaded_pipeline)" by simp
  have h2: "phase job_a_lost \<notin> set (get_phases loaded_pipeline)" by simp
  from add_job_duplicate_name_first [OF build_loaded h1 h2] build_loaded h1 h2
  show ?thesis by simp
qed

end
